theory Spec2Isabelle
  imports
    Complex_Main
    "HOL-Library.Word"
    "HOL-Library.Multiset"
    "HOL-Library.Char_ord"
    "HOL-Library.List_Lexorder"
    "HOL-Library.Product_Lexorder"
begin

section \<open>Strings of the JavaScript runtime\<close>

text \<open>
  A JavaScript string is a sequence of 16-bit code units. The regular expressions of
  \<^verbatim>\<open>safeUsername\<close> carry no \<^verbatim>\<open>u\<close> flag, so they work unit by unit.
\<close>

type_synonym js_string = "16 word list"

definition js_str :: "string \<Rightarrow> js_string" where
  "js_str s = map (\<lambda>c. of_char c) s"

text \<open>
  The units matched by \<^verbatim>\<open>\s\<close> and removed by \<^verbatim>\<open>trim()\<close>: the White_Space
  and LineTerminator code points of ECMAScript.
\<close>

definition is_space :: "16 word \<Rightarrow> bool" where
  "is_space c \<longleftrightarrow>
     (0x09 \<le> c \<and> c \<le> 0x0D) \<or> c = 0x20 \<or> c = 0xA0 \<or> c = 0x1680 \<or>
     (0x2000 \<le> c \<and> c \<le> 0x200A) \<or> c = 0x2028 \<or> c = 0x2029 \<or> c = 0x202F \<or>
     c = 0x205F \<or> c = 0x3000 \<or> c = 0xFEFF"

text \<open>The character class \<^verbatim>\<open>[a-z0-9_-]\<close>.\<close>

definition allowed :: "16 word \<Rightarrow> bool" where
  "allowed c \<longleftrightarrow>
     (0x61 \<le> c \<and> c \<le> 0x7A) \<or> (0x30 \<le> c \<and> c \<le> 0x39) \<or> c = 0x5F \<or> c = 0x2D"

definition trim :: "js_string \<Rightarrow> js_string" where
  "trim s = rev (dropWhile is_space (rev (dropWhile is_space s)))"

text \<open>
  \<^verbatim>\<open>toLowerCase()\<close> belongs to the runtime, not to the repository. The units whose
  lower-case form contains an ASCII letter are mapped as Unicode maps them: \<^verbatim>\<open>A-Z\<close>,
  U+0130 (to \<^verbatim>\<open>i\<close> followed by U+0307) and U+212A, the Kelvin sign (to \<^verbatim>\<open>k\<close>).
  Every other unit is left as it is: its lower-case form is never white space unless the
  unit is, and never ASCII unless the unit is, so the two replacements that follow in
  \<^verbatim>\<open>safeUsername\<close> treat it and its lower-case form alike.
\<close>

definition toLowerCase_unit :: "16 word \<Rightarrow> js_string" where
  "toLowerCase_unit c =
     (if 0x41 \<le> c \<and> c \<le> 0x5A then [c + 0x20]
      else if c = 0x130 then [0x69, 0x307]
      else if c = 0x212A then [0x6B]
      else [c])"

definition toLowerCase :: "js_string \<Rightarrow> js_string" where
  "toLowerCase s = concat (map toLowerCase_unit s)"

text \<open>\<^verbatim>\<open>.replace(/\s+/g, "-")\<close>: every maximal run of white space becomes one hyphen.\<close>

function replace_spaces :: "js_string \<Rightarrow> js_string" where
  "replace_spaces [] = []"
| "replace_spaces (c # cs) =
     (if is_space c then 0x2D # replace_spaces (dropWhile is_space cs)
      else c # replace_spaces cs)"
  by pat_completeness auto
termination
  by (relation "measure length") (auto simp: less_Suc_eq_le length_dropWhile_le)

text \<open>\<^verbatim>\<open>.replace(/[^a-z0-9_-]/g, "")\<close>: every unit outside the class is deleted.\<close>

definition strip_disallowed :: "js_string \<Rightarrow> js_string" where
  "strip_disallowed s = filter allowed s"

section \<open>safeUsername\<close>

text \<open>
  \<^verbatim>\<open>
  function safeUsername(input) {
    const raw = String(input || "").trim().toLowerCase();
    const cleaned = raw.replace(/\s+/g, "-").replace(/[^a-z0-9_-]/g, "");
    return cleaned || "player";
  }
  \<close>
  The input is a request field: absent (\<open>None\<close>, for which \<^verbatim>\<open>input || ""\<close> is the
  empty string) or a string. \<open>cleaned\<close> is the constant of that name in the body.
\<close>

definition cleaned :: "js_string option \<Rightarrow> js_string" where
  "cleaned input =
     (let raw = toLowerCase (trim (case input of None \<Rightarrow> [] | Some s \<Rightarrow> s))
      in strip_disallowed (replace_spaces raw))"

definition safeUsername :: "js_string option \<Rightarrow> js_string" where
  "safeUsername input = (if cleaned input = [] then js_str ''player'' else cleaned input)"

section \<open>Numbers of the JavaScript runtime\<close>

text \<open>
  \<^verbatim>\<open>Number(x)\<close> is a finite double, \<^verbatim>\<open>NaN\<close> or one of the two infinities. Every
  finite double is a rational number, and the handlers only compare it, take its floor and
  take a maximum or minimum, all of which are exact on doubles; the zero of either sign
  is the rational 0.
\<close>

datatype js_number = Finite rat | NaN | PosInfinity | NegInfinity

fun isFinite :: "js_number \<Rightarrow> bool" where
  "isFinite (Finite r) = True"
| "isFinite NaN = False"
| "isFinite PosInfinity = False"
| "isFinite NegInfinity = False"

text \<open>\<^verbatim>\<open>x < 0\<close>\<close>

fun lt_zero :: "js_number \<Rightarrow> bool" where
  "lt_zero (Finite r) = (r < 0)"
| "lt_zero NaN = False"
| "lt_zero PosInfinity = False"
| "lt_zero NegInfinity = True"

text \<open>\<^verbatim>\<open>Math.floor(x)\<close>, used on finite numbers only.\<close>

fun math_floor :: "js_number \<Rightarrow> int" where
  "math_floor (Finite r) = \<lfloor>r\<rfloor>"
| "math_floor NaN = 0"
| "math_floor PosInfinity = 0"
| "math_floor NegInfinity = 0"

section \<open>The leaderboard table\<close>

text \<open>
  \<^verbatim>\<open>
  CREATE TABLE IF NOT EXISTS leaderboard (
    username TEXT PRIMARY KEY,
    best INTEGER NOT NULL DEFAULT 0,
    updated_at TEXT NOT NULL
  )
  \<close>
  The table is the list of its rows, in insertion order. \<open>updated_at\<close> holds the text
  of \<^verbatim>\<open>new Date().toISOString()\<close>, which SQLite compares byte by byte: the
  lexicographic order of \<open>string\<close>.
\<close>

record entry =
  username :: js_string
  best :: int
  updated_at :: string

type_synonym store = "entry list"

text \<open>\<^verbatim>\<open>SELECT ... FROM leaderboard WHERE username = ?\<close> through \<^verbatim>\<open>dbGet\<close>: the first row.\<close>

definition select_user :: "store \<Rightarrow> js_string \<Rightarrow> entry option" where
  "select_user db u = find (\<lambda>e. username e = u) db"

text \<open>\<^verbatim>\<open>UPDATE leaderboard SET best = ?, updated_at = ? WHERE username = ?\<close>\<close>

definition update_user :: "store \<Rightarrow> int \<Rightarrow> string \<Rightarrow> js_string \<Rightarrow> store" where
  "update_user db b t u =
     map (\<lambda>e. if username e = u then e\<lparr>best := b, updated_at := t\<rparr> else e) db"

text \<open>\<^verbatim>\<open>INSERT INTO leaderboard (username, best, updated_at) VALUES (?, ?, ?)\<close>\<close>

definition insert_user :: "store \<Rightarrow> js_string \<Rightarrow> int \<Rightarrow> string \<Rightarrow> store" where
  "insert_user db u b t = db @ [\<lparr>username = u, best = b, updated_at = t\<rparr>]"

section \<open>Responses\<close>

datatype response =
    ScoreOk js_string int
  | RankOk js_string "nat option" nat "int option"
  | LeaderboardOk "entry list"
  | AvatarOk js_string
  | Failed nat string

section \<open>POST /api/score\<close>

text \<open>
  \<^verbatim>\<open>
  const username = safeUsername(req.body.username);
  const scoreNum = Number(req.body.score);
  if (!username) return res.status(400).json({ ok: false, error: "Missing username" });
  if (!Number.isFinite(scoreNum) || scoreNum < 0) {
    return res.status(400).json({ ok: false, error: "Invalid score" });
  }
  const now = new Date().toISOString();
  const existing = await dbGet(`SELECT best FROM leaderboard WHERE username = ?`, [username]);
  const existingBest = existing ? Number(existing.best) : 0;
  const newBest = Math.max(existingBest, Math.floor(scoreNum));
  if (existing) { UPDATE ... [newBest, now, username] }
  else { INSERT ... [username, newBest, now] }
  res.json({ ok: true, username, best: newBest });
  \<close>
  The handler takes the table, the clock reading \<open>now\<close>, the \<^verbatim>\<open>username\<close> field of
  the body and \<^verbatim>\<open>Number(req.body.score)\<close>; it returns the response and the table.
\<close>

definition score_post ::
    "store \<Rightarrow> string \<Rightarrow> js_string option \<Rightarrow> js_number \<Rightarrow> response \<times> store" where
  "score_post db now username_field scoreNum =
     (let uname = safeUsername username_field in
      if uname = [] then (Failed 400 ''Missing username'', db)
      else if \<not> isFinite scoreNum \<or> lt_zero scoreNum then (Failed 400 ''Invalid score'', db)
      else
        let existing = select_user db uname;
            existingBest = (case existing of None \<Rightarrow> 0 | Some e \<Rightarrow> best e);
            newBest = max existingBest (math_floor scoreNum)
        in (ScoreOk uname newBest,
            case existing of
              Some e \<Rightarrow> update_user db newBest now uname
            | None \<Rightarrow> insert_user db uname newBest now))"

section \<open>GET /api/rank\<close>

text \<open>
  \<^verbatim>\<open>
  SELECT COUNT(*) AS ahead FROM leaderboard
  WHERE best > ? OR (best = ? AND updated_at < ?)      [best, best, updatedAt]
  \<close>
\<close>

definition count_ahead :: "store \<Rightarrow> int \<Rightarrow> string \<Rightarrow> nat" where
  "count_ahead db b t =
     length (filter (\<lambda>e. best e > b \<or> (best e = b \<and> updated_at e < t)) db)"

text \<open>
  \<^verbatim>\<open>
  const username = safeUsername(req.query.username);
  if (!username) return res.status(400).json({ ok: false, error: "Missing username" });
  const totalRow = await dbGet(`SELECT COUNT(*) AS total FROM leaderboard`, []);
  const total = totalRow ? Number(totalRow.total) : 0;
  const me = await dbGet(`SELECT best, updated_at FROM leaderboard WHERE username = ?`, [username]);
  if (!me) return res.json({ ok: true, username, rank: null, total, best: null });
  const best = Number(me.best);  const updatedAt = String(me.updated_at);
  ...
  const rank = ahead + 1;
  return res.json({ ok: true, username, rank, total, best });
  \<close>
\<close>

definition rank_get :: "store \<Rightarrow> js_string option \<Rightarrow> response" where
  "rank_get db username_field =
     (let uname = safeUsername username_field in
      if uname = [] then Failed 400 ''Missing username''
      else
        let total = length db in
        case select_user db uname of
          None \<Rightarrow> RankOk uname None total None
        | Some me \<Rightarrow>
            let ahead = count_ahead db (best me) (updated_at me);
                rank = ahead + 1
            in RankOk uname (Some rank) total (Some (best me)))"

section \<open>GET /api/leaderboard\<close>

text \<open>
  \<^verbatim>\<open>ORDER BY best DESC, updated_at ASC\<close>: rows sorted on the pair of the negated
  \<open>best\<close> and \<open>updated_at\<close>, compared lexicographically. SQL leaves the order of
  rows that agree on both columns open; the sort keeps them in table order.
\<close>

definition order_key :: "entry \<Rightarrow> int \<times> string" where
  "order_key e = (- best e, updated_at e)"

definition ordered_rows :: "store \<Rightarrow> entry list" where
  "ordered_rows db = sort_key order_key db"

text \<open>
  \<^verbatim>\<open>
  const limitRaw = Number(req.query.limit);
  const limit = Number.isFinite(limitRaw) ? Math.max(1, Math.min(50, limitRaw)) : 20;
  const rows = await dbAll(`SELECT ... ORDER BY best DESC, updated_at ASC LIMIT ?`, [limit]);
  res.json({ ok: true, rows });
  } catch (e) { res.status(500).json({ ok: false, error: "Failed to load leaderboard" }); }
  \<close>
  SQLite refuses a \<^verbatim>\<open>LIMIT\<close> that is not a whole number; the handler's
  \<^verbatim>\<open>catch\<close> answers 500 then.
\<close>

definition clamp_limit :: "js_number \<Rightarrow> rat" where
  "clamp_limit limitRaw =
     (case limitRaw of Finite r \<Rightarrow> max 1 (min 50 r) | _ \<Rightarrow> 20)"

definition leaderboard_get :: "store \<Rightarrow> js_number \<Rightarrow> response" where
  "leaderboard_get db limitRaw =
     (let limit = clamp_limit limitRaw in
      if of_int \<lfloor>limit\<rfloor> = limit
      then LeaderboardOk (take (nat \<lfloor>limit\<rfloor>) (ordered_rows db))
      else Failed 500 ''Failed to load leaderboard'')"

section \<open>POST /api/upload-avatar\<close>

text \<open>
  The avatar directory is a map from file names to files. A file part of the multipart
  body has the MIME type its sender declared and its bytes.
\<close>

record upload_file =
  mimetype :: string
  content :: "8 word list"

type_synonym disk = "js_string \<rightharpoonup> upload_file"

text \<open>
  \<^verbatim>\<open>
  filename: (req, file, cb) => {
    const username = safeUsername(req.body.username);
    cb(null, `${username}.png`);
  }
  \<close>
\<close>

definition avatar_filename :: "js_string option \<Rightarrow> js_string" where
  "avatar_filename username_field = safeUsername username_field @ js_str ''.png''"

text \<open>\<^verbatim>\<open>limits: { fileSize: 5 * 1024 * 1024 }\<close>\<close>

definition fileSize_limit :: nat where
  "fileSize_limit = 5 * 1024 * 1024"

text \<open>
  The filter of the earlier server file, which its \<^verbatim>\<open>upload\<close> middleware is given:
  \<^verbatim>\<open>
  function fileFilter(req, file, cb) {
    const allowed = ["image/png", "image/jpeg", "image/jpg", "image/webp"];
    if (allowed.includes(file.mimetype)) cb(null, true);
    else cb(new Error("Only PNG, JPG, or WEBP images are allowed."));
  }
  \<close>
\<close>

definition fileFilter :: "string \<Rightarrow> bool" where
  "fileFilter mt \<longleftrightarrow> mt \<in> set [''image/png'', ''image/jpeg'', ''image/jpg'', ''image/webp'']"

text \<open>
  \<^verbatim>\<open>
  const uploadAvatar = multer({ storage: avatarStorage, limits: { fileSize: 5 * 1024 * 1024 } });
  app.post("/api/upload-avatar", uploadAvatar.single("avatar"), (req, res) => {
    if (!req.file) return res.status(400).json({ ok: false, error: "Missing avatar file" });
    const username = safeUsername(req.body.username);
    return res.json({ ok: true, avatarUrl: `/avatars/${encodeURIComponent(username)}.png` });
  \<close>
  \<^verbatim>\<open>uploadAvatar\<close> is built with a storage and a size limit and with no
  \<^verbatim>\<open>fileFilter\<close>, so the middleware writes every file part within the limit to the
  directory under the name the storage gives it, over any file of that name. A part
  beyond the limit is an error of the middleware: it removes the file it was writing and
  the request ends in the framework's error handler, status 500. The name is in the
  class \<^verbatim>\<open>[a-z0-9_-]\<close>, which \<^verbatim>\<open>encodeURIComponent\<close> leaves as it is. The
  \<^verbatim>\<open>username\<close> field is taken to precede the file part in the body.
\<close>

definition upload_avatar ::
    "disk \<Rightarrow> js_string option \<Rightarrow> upload_file option \<Rightarrow> response \<times> disk" where
  "upload_avatar files username_field file_part =
     (case file_part of
        None \<Rightarrow> (Failed 400 ''Missing avatar file'', files)
      | Some f \<Rightarrow>
          if length (content f) > fileSize_limit
          then (Failed 500 ''File too large'', files(avatar_filename username_field := None))
          else (AvatarOk (js_str ''/avatars/'' @ safeUsername username_field @ js_str ''.png''),
                files(avatar_filename username_field \<mapsto> f)))"

section \<open>Sequences of requests and the primary key\<close>

text \<open>The table after a sequence of score submissions (clock, username field, score).\<close>

fun run_posts :: "store \<Rightarrow> (string \<times> js_string option \<times> js_number) list \<Rightarrow> store" where
  "run_posts db [] = db"
| "run_posts db ((now, username_field, scoreNum) # rs) =
     run_posts (snd (score_post db now username_field scoreNum)) rs"

text \<open>
  \<^verbatim>\<open>username TEXT PRIMARY KEY\<close>: no two rows share a username. Every username was
  written by \<^verbatim>\<open>score_post\<close>, hence is a value of \<^verbatim>\<open>safeUsername\<close>.
\<close>

definition primary_key :: "store \<Rightarrow> bool" where
  "primary_key db \<longleftrightarrow> distinct (map username db)"

definition normalized :: "js_string \<Rightarrow> bool" where
  "normalized u \<longleftrightarrow> safeUsername (Some u) = u"

definition store_ok :: "store \<Rightarrow> bool" where
  "store_ok db \<longleftrightarrow> primary_key db \<and> list_all (\<lambda>e. normalized (username e)) db"

section \<open>The rank as the specification words it\<close>

text \<open>
  ``rank = count(entries where best > mine OR (best == mine AND updatedAt < mine.updatedAt)) + 1.
  total = count of all entries.''
\<close>

primrec count_where :: "(entry \<Rightarrow> bool) \<Rightarrow> entry list \<Rightarrow> nat" where
  "count_where P [] = 0"
| "count_where P (e # es) = (if P e then 1 else 0) + count_where P es"

definition spec_rank :: "store \<Rightarrow> entry \<Rightarrow> nat" where
  "spec_rank db mine =
     count_where (\<lambda>e. best e > best mine \<or>
                      (best e = best mine \<and> updated_at e < updated_at mine)) db + 1"

definition spec_total :: "store \<Rightarrow> nat" where
  "spec_total db = count_where (\<lambda>e. True) db"

section \<open>A table of three players\<close>

definition alice_row :: entry where
  "alice_row =
     \<lparr>username = js_str ''alice'', best = 10, updated_at = ''2026-01-01T10:00:00.000Z''\<rparr>"

definition bob_row :: entry where
  "bob_row =
     \<lparr>username = js_str ''bob'', best = 15, updated_at = ''2026-01-02T10:00:00.000Z''\<rparr>"

definition carol_row :: entry where
  "carol_row =
     \<lparr>username = js_str ''carol'', best = 10, updated_at = ''2026-01-03T10:00:00.000Z''\<rparr>"

definition example_store :: store where
  "example_store = [alice_row, bob_row, carol_row]"

section \<open>Properties of safeUsername\<close>

lemma allowed_not_space: "allowed c \<Longrightarrow> \<not> is_space c"
  unfolding allowed_def is_space_def by (auto simp: word_le_nat_alt)

lemma allowed_lower_fixed: "allowed c \<Longrightarrow> toLowerCase_unit c = [c]"
  unfolding allowed_def toLowerCase_unit_def by (auto simp: word_le_nat_alt)

lemma trim_allowed:
  assumes "list_all allowed s"
  shows "trim s = s"
proof -
  have p: "dropWhile is_space xs = xs" if "list_all allowed xs" for xs
    using that by (cases xs) (auto simp: allowed_not_space)
  from assms have "list_all allowed (rev s)"
    by (simp add: list_all_iff)
  with assms p show ?thesis
    by (simp add: trim_def)
qed

lemma toLowerCase_allowed: "list_all allowed s \<Longrightarrow> toLowerCase s = s"
  by (induction s) (auto simp: toLowerCase_def allowed_lower_fixed)

lemma replace_spaces_allowed: "list_all allowed s \<Longrightarrow> replace_spaces s = s"
  by (induction s) (auto simp: allowed_not_space)

lemma strip_allowed: "list_all allowed s \<Longrightarrow> strip_disallowed s = s"
  by (induction s) (auto simp: strip_disallowed_def)

lemma player_allowed: "list_all allowed (js_str ''player'')"
  by (simp add: js_str_def allowed_def)

lemma safeUsername_allowed: "list_all allowed (safeUsername x)"
  using player_allowed
  by (simp add: safeUsername_def cleaned_def Let_def strip_disallowed_def list_all_iff)

lemma safeUsername_nonempty: "safeUsername x \<noteq> []"
  by (simp add: safeUsername_def js_str_def)

lemma safeUsername_fixed: "list_all allowed s \<Longrightarrow> s \<noteq> [] \<Longrightarrow> safeUsername (Some s) = s"
  by (simp add: safeUsername_def cleaned_def Let_def trim_allowed toLowerCase_allowed
      replace_spaces_allowed strip_allowed)

lemma safeUsername_idem: "safeUsername (Some (safeUsername x)) = safeUsername x"
  by (rule safeUsername_fixed [OF safeUsername_allowed safeUsername_nonempty])

lemma allowed_enum:
  "allowed c \<Longrightarrow> c \<in> set (js_str ''abcdefghijklmnopqrstuvwxyz0123456789_-'')"
  unfolding allowed_def js_str_def
  apply (simp add: word_le_nat_alt)
  apply (auto simp: word_unat_eq_iff)
  apply arith+
  done

section \<open>Properties of the table operations\<close>

lemma find_update_same:
  "find (\<lambda>e. username e = u) db = Some e \<Longrightarrow>
   find (\<lambda>e. username e = u)
     (map (\<lambda>e. if username e = u then e\<lparr>best := b, updated_at := t\<rparr> else e) db) =
   Some (e\<lparr>best := b, updated_at := t\<rparr>)"
  by (induction db) (auto split: if_splits)

lemma find_update_other:
  "v \<noteq> u \<Longrightarrow>
   find (\<lambda>e. username e = v)
     (map (\<lambda>e. if username e = u then e\<lparr>best := b, updated_at := t\<rparr> else e) db) =
   find (\<lambda>e. username e = v) db"
  by (induction db) auto

lemma select_update_same:
  "select_user db u = Some e \<Longrightarrow>
   select_user (update_user db b t u) u = Some (e\<lparr>best := b, updated_at := t\<rparr>)"
  by (simp add: select_user_def update_user_def find_update_same)

lemma select_update_other:
  "v \<noteq> u \<Longrightarrow> select_user (update_user db b t u) v = select_user db v"
  by (simp add: select_user_def update_user_def find_update_other)

lemma find_append_Some: "find P xs = Some e \<Longrightarrow> find P (xs @ ys) = Some e"
  by (induction xs) (auto split: if_splits)

lemma find_append_None: "find P xs = None \<Longrightarrow> find P (xs @ ys) = find P ys"
  by (induction xs) (auto split: if_splits)

lemma select_insert_keep:
  "select_user db v = Some e \<Longrightarrow> select_user (insert_user db u b t) v = Some e"
  by (simp add: select_user_def insert_user_def find_append_Some)

lemma select_insert_new:
  "select_user db u = None \<Longrightarrow>
   select_user (insert_user db u b t) u = Some \<lparr>username = u, best = b, updated_at = t\<rparr>"
  by (simp add: select_user_def insert_user_def find_append_None)

lemma usernames_update: "map username (update_user db b t u) = map username db"
  by (simp add: update_user_def comp_def if_distrib cong: if_cong)

lemma select_user_None: "select_user db u = None \<longleftrightarrow> u \<notin> username ` set db"
  by (auto simp: select_user_def find_None_iff)

lemma store_ok_update:
  assumes "store_ok db"
  shows "store_ok (update_user db b t u)"
proof -
  have "list_all (\<lambda>e. normalized (username e)) xs = list_all normalized (map username xs)"
    for xs :: store
    by (simp add: list_all_iff)
  with assms show ?thesis
    by (simp add: store_ok_def primary_key_def usernames_update)
qed

lemma store_ok_insert:
  "store_ok db \<Longrightarrow> select_user db u = None \<Longrightarrow> normalized u \<Longrightarrow> store_ok (insert_user db u b t)"
  by (auto simp: store_ok_def primary_key_def insert_user_def select_user_None)

lemma normalized_safeUsername: "normalized (safeUsername x)"
  by (simp add: normalized_def safeUsername_idem)

lemma store_ok_score_post: "store_ok db \<Longrightarrow> store_ok (snd (score_post db now q x))"
  by (auto simp: score_post_def Let_def store_ok_update store_ok_insert normalized_safeUsername
      split: option.split)

lemma store_ok_run_posts: "store_ok db \<Longrightarrow> store_ok (run_posts db reqs)"
  by (induction db reqs rule: run_posts.induct) (simp_all add: store_ok_score_post)

lemma store_ok_empty: "store_ok []"
  by (simp add: store_ok_def primary_key_def)

lemma store_ok_select:
  assumes "store_ok db" and "e \<in> set db"
  shows "select_user db (safeUsername (Some (username e))) = Some e"
proof -
  from assms have n: "safeUsername (Some (username e)) = username e"
    by (auto simp: store_ok_def list_all_iff normalized_def)
  from assms have d: "distinct (map username db)"
    by (simp add: store_ok_def primary_key_def)
  have "find (\<lambda>x. username x = username e) db = Some e"
    using d assms(2)
  proof (induction db)
    case Nil
    then show ?case by simp
  next
    case (Cons a db)
    then show ?case by (cases "a = e") (auto simp: image_iff)
  qed
  with n show ?thesis by (simp add: select_user_def)
qed

section \<open>Properties of the rank count\<close>

lemma count_where_filter: "count_where P xs = length (filter P xs)"
  by (induction xs) auto

lemma select_user_mem: "select_user db u = Some e \<Longrightarrow> e \<in> set db \<and> username e = u"
  by (auto simp: select_user_def find_Some_iff)

lemma rank_get_found:
  "select_user db (safeUsername q) = Some me \<Longrightarrow>
   rank_get db q =
     RankOk (safeUsername q) (Some (count_ahead db (best me) (updated_at me) + 1))
       (length db) (Some (best me))"
  by (simp add: rank_get_def Let_def safeUsername_nonempty)

lemma rank_get_missing:
  "select_user db (safeUsername q) = None \<Longrightarrow>
   rank_get db q = RankOk (safeUsername q) None (length db) None"
  by (simp add: rank_get_def Let_def safeUsername_nonempty)

lemma count_ahead_self_less:
  assumes "me \<in> set db"
  shows "count_ahead db (best me) (updated_at me) < length db"
  unfolding count_ahead_def using assms by (intro length_filter_less) auto

lemma count_ahead_top:
  assumes "\<forall>x\<in>set db. x \<noteq> me \<longrightarrow> best x < best me"
  shows "count_ahead db (best me) (updated_at me) = 0"
proof -
  have "\<not> (best x > best me \<or> (best x = best me \<and> updated_at x < updated_at me))"
    if "x \<in> set db" for x
    using that assms by (cases "x = me") auto
  then show ?thesis by (simp add: count_ahead_def filter_empty_conv)
qed

lemma count_ahead_tie:
  assumes "a \<in> set db" and "best a = b" and "updated_at a < t"
  shows "count_ahead db b (updated_at a) < count_ahead db b t"
proof -
  define PA where "PA = (\<lambda>e::entry. best e > b \<or> (best e = b \<and> updated_at e < updated_at a))"
  define PB where "PB = (\<lambda>e::entry. best e > b \<or> (best e = b \<and> updated_at e < t))"
  have imp: "PA e \<Longrightarrow> PB e" for e
    using assms(3) unfolding PA_def PB_def by auto
  have eq: "filter PA db = filter PA (filter PB db)"
    using imp by (induction db) auto
  have mem: "a \<in> set (filter PB db)"
    using assms unfolding PB_def by simp
  have notA: "\<not> PA a"
    using assms unfolding PA_def by simp
  have "length (filter PA (filter PB db)) < length (filter PB db)"
    using mem notA by (rule length_filter_less)
  with eq show ?thesis
    unfolding count_ahead_def PA_def PB_def by simp
qed

section \<open>Properties of the ordered listing\<close>

lemma sorted_distinct_position:
  fixes f :: "'a \<Rightarrow> 'k::linorder"
  shows "sorted (map f xs) \<Longrightarrow> distinct (map f xs) \<Longrightarrow> i < length xs \<Longrightarrow>
    length (filter (\<lambda>e. f e < f (xs ! i)) xs) = i"
proof (induction xs arbitrary: i)
  case Nil
  then show ?case by simp
next
  case (Cons x xs)
  show ?case
  proof (cases i)
    case 0
    have "\<not> f e < f x" if "e \<in> set xs" for e
      using Cons.prems(1) that by (auto simp: not_less)
    then have "filter (\<lambda>e. f e < f x) xs = []"
      by (simp add: filter_empty_conv)
    with 0 show ?thesis by simp
  next
    case (Suc j)
    with Cons.prems have j: "j < length xs" by simp
    then have mem: "xs ! j \<in> set xs" by simp
    from Cons.prems(1) mem have "f x \<le> f (xs ! j)" by auto
    moreover from Cons.prems(2) mem have "f x \<noteq> f (xs ! j)" by auto
    ultimately have "f x < f (xs ! j)" by simp
    moreover have "length (filter (\<lambda>e. f e < f (xs ! j)) xs) = j"
      using Cons.IH [of j] Cons.prems j by simp
    ultimately show ?thesis using Suc by simp
  qed
qed

lemma length_filter_perm:
  assumes "mset xs = mset ys"
  shows "length (filter P xs) = length (filter P ys)"
proof -
  from assms have "mset (filter P xs) = mset (filter P ys)" by simp
  then show ?thesis by (rule mset_eq_length)
qed

lemma count_ahead_key:
  "count_ahead db b t = length (filter (\<lambda>e. order_key e < (- b, t)) db)"
proof -
  have "(best e > b \<or> (best e = b \<and> updated_at e < t)) \<longleftrightarrow> order_key e < (- b, t)"
    for e :: entry
    by (auto simp: order_key_def)
  then show ?thesis by (simp add: count_ahead_def)
qed

lemma distinct_order_key:
  assumes "distinct (map (\<lambda>e. (best e, updated_at e)) db)"
  shows "distinct (map order_key db)"
proof -
  from assms have d: "distinct db" and i: "inj_on (\<lambda>e::entry. (best e, updated_at e)) (set db)"
    by (simp_all add: distinct_map)
  from i have "inj_on order_key (set db)"
    by (auto simp: inj_on_def order_key_def)
  with d show ?thesis by (simp add: distinct_map)
qed

lemma ordered_rows_position:
  assumes "distinct (map (\<lambda>e. (best e, updated_at e)) db)"
    and "i < length (ordered_rows db)"
  shows "count_ahead db (best (ordered_rows db ! i)) (updated_at (ordered_rows db ! i)) = i"
proof -
  let ?rs = "ordered_rows db"
  have perm: "mset ?rs = mset db" by (simp add: ordered_rows_def)
  have srt: "sorted (map order_key ?rs)" by (simp add: ordered_rows_def)
  have "mset (map order_key ?rs) = mset (map order_key db)"
    using perm by (metis mset_map)
  then have dst: "distinct (map order_key ?rs)"
    using distinct_order_key [OF assms(1)] by (metis mset_eq_imp_distinct_iff)
  have "count_ahead db (best (?rs ! i)) (updated_at (?rs ! i)) =
        length (filter (\<lambda>e. order_key e < order_key (?rs ! i)) db)"
    by (simp add: count_ahead_key order_key_def)
  also have "\<dots> = length (filter (\<lambda>e. order_key e < order_key (?rs ! i)) ?rs)"
    using perm by (intro length_filter_perm) simp
  also have "\<dots> = i"
    using srt dst assms(2) by (rule sorted_distinct_position)
  finally show ?thesis .
qed

section \<open>Score submission\<close>

text \<open>
  C1. A submission for an existing username whose floored score does not exceed the
  stored best should leave \<open>updated_at\<close> as it was. The handler writes the clock
  reading with every \<^verbatim>\<open>UPDATE\<close>: alice holds 10 since 1 January; her submission
  of 5 on 4 January keeps the 10 and moves \<open>updated_at\<close> to 4 January.
\<close>

theorem score_post_refreshes_updated_at:
  "score_post [alice_row] ''2026-01-04T10:00:00.000Z'' (Some (js_str ''alice'')) (Finite 5) =
     (ScoreOk (js_str ''alice'') 10,
      [\<lparr>username = js_str ''alice'', best = 10, updated_at = ''2026-01-04T10:00:00.000Z''\<rparr>]) \<and>
   updated_at alice_row = ''2026-01-01T10:00:00.000Z'' \<and>
   math_floor (Finite 5) \<le> best alice_row"
  by code_simp

theorem score_post_refreshes_updated_at_witness:
  "\<exists>e. select_user
          (snd (score_post [alice_row] ''2026-01-04T10:00:00.000Z'' (Some (js_str ''alice''))
                  (Finite 5)))
          (js_str ''alice'') = Some e \<and>
        best e = best alice_row \<and> updated_at e \<noteq> updated_at alice_row"
proof -
  have b: "best alice_row = 10"
    by code_simp
  from score_post_refreshes_updated_at b show ?thesis
    by (simp add: select_user_def)
qed

text \<open>
  C3. Whatever is submitted, accepted or not, a username that has a row keeps a row, and
  its \<open>best\<close> after the submission is at least its \<open>best\<close> before; so a score
  below the current best never lowers it.
\<close>

theorem best_non_decreasing:
  assumes "score_post db now username_field scoreNum = (r, db')"
    and "select_user db v = Some e"
  shows "\<exists>e'. select_user db' v = Some e' \<and> best e \<le> best e'"
proof -
  let ?u = "safeUsername username_field"
  show ?thesis
  proof (cases "\<not> isFinite scoreNum \<or> lt_zero scoreNum")
    case True
    with assms show ?thesis by (auto simp: score_post_def Let_def split: if_splits)
  next
    case ok: False
    show ?thesis
    proof (cases "select_user db ?u")
      case None
      with ok assms(1) have "db' = insert_user db ?u (max 0 (math_floor scoreNum)) now"
        by (auto simp: score_post_def Let_def safeUsername_nonempty)
      with assms(2) show ?thesis by (simp add: select_insert_keep)
    next
      case (Some m)
      with ok assms(1) have db': "db' = update_user db (max (best m) (math_floor scoreNum)) now ?u"
        by (auto simp: score_post_def Let_def safeUsername_nonempty)
      show ?thesis
      proof (cases "v = ?u")
        case True
        with Some assms(2) have "m = e" by simp
        with True Some db' show ?thesis by (simp add: select_update_same)
      next
        case False
        with db' assms(2) show ?thesis by (simp add: select_update_other)
      qed
    qed
  qed
qed

theorem best_non_decreasing_witness:
  "score_post example_store ''2026-01-04T10:00:00.000Z'' (Some (js_str ''alice'')) (Finite 5) =
     (ScoreOk (js_str ''alice'') 10,
      update_user example_store 10 ''2026-01-04T10:00:00.000Z'' (js_str ''alice'')) \<and>
   select_user example_store (js_str ''alice'') = Some alice_row \<and>
   (\<exists>e'. select_user
           (update_user example_store 10 ''2026-01-04T10:00:00.000Z'' (js_str ''alice''))
           (js_str ''alice'') = Some e' \<and> 10 \<le> best e')"
proof -
  have p: "score_post example_store ''2026-01-04T10:00:00.000Z'' (Some (js_str ''alice''))
             (Finite 5) =
           (ScoreOk (js_str ''alice'') 10,
            update_user example_store 10 ''2026-01-04T10:00:00.000Z'' (js_str ''alice''))"
    by code_simp
  have s: "select_user example_store (js_str ''alice'') = Some alice_row"
    by code_simp
  have b: "best alice_row = 10"
    by code_simp
  from best_non_decreasing [OF p s] p s b show ?thesis
    by simp
qed

text \<open>
  C7, as the specification has it: a submission is rejected exactly when the username is
  invalid or missing or the score is not a finite number at least 0. The handler
  normalizes the username instead of judging it: a name with capitals, a blank and an
  exclamation mark is stored in its cleaned form, and an absent name is stored as
  \<^verbatim>\<open>player\<close>.
\<close>

theorem score_post_accepts_unclean_username:
  "score_post [] ''2026-01-04T10:00:00.000Z'' (Some (js_str ''Bob Smith!'')) (Finite 3) =
     (ScoreOk (js_str ''bob-smith'') 3,
      [\<lparr>username = js_str ''bob-smith'', best = 3, updated_at = ''2026-01-04T10:00:00.000Z''\<rparr>]) \<and>
   score_post [] ''2026-01-04T10:00:00.000Z'' None (Finite 3) =
     (ScoreOk (js_str ''player'') 3,
      [\<lparr>username = js_str ''player'', best = 3, updated_at = ''2026-01-04T10:00:00.000Z''\<rparr>])"
  by code_simp

text \<open>
  C7, amended. For a username field of which something is left after cleaning: the
  submission is rejected with status 400 and the table as it was when the score is not
  finite or is negative, and otherwise it is accepted under the cleaned name, with the
  best it reports stored for that name.
\<close>

theorem score_post_rejects_bad_score:
  assumes "cleaned q \<noteq> []"
  shows "if \<not> isFinite scoreNum \<or> lt_zero scoreNum
         then score_post db now q scoreNum = (Failed 400 ''Invalid score'', db)
         else \<exists>b db' e. score_post db now q scoreNum = (ScoreOk (cleaned q) b, db') \<and>
                select_user db' (cleaned q) = Some e \<and> best e = b"
proof -
  from assms have u: "safeUsername q = cleaned q" by (simp add: safeUsername_def)
  show ?thesis
  proof (cases "\<not> isFinite scoreNum \<or> lt_zero scoreNum")
    case True
    then show ?thesis using assms u by (auto simp: score_post_def Let_def)
  next
    case False
    show ?thesis
    proof (cases "select_user db (cleaned q)")
      case None
      then show ?thesis
        using False assms u by (simp add: score_post_def Let_def select_insert_new)
    next
      case (Some m)
      then show ?thesis
        using False assms u by (simp add: score_post_def Let_def select_update_same)
    qed
  qed
qed

theorem score_post_rejects_bad_score_witness:
  "cleaned (Some (js_str ''Bob Smith!'')) \<noteq> [] \<and>
   score_post example_store ''2026-01-04T10:00:00.000Z'' (Some (js_str ''Bob Smith!''))
     (Finite (- 1)) = (Failed 400 ''Invalid score'', example_store) \<and>
   score_post example_store ''2026-01-04T10:00:00.000Z'' (Some (js_str ''Bob Smith!''))
     NaN = (Failed 400 ''Invalid score'', example_store) \<and>
   (\<exists>b db' e.
      score_post example_store ''2026-01-04T10:00:00.000Z'' (Some (js_str ''Bob Smith!''))
        (Finite (7 / 2)) = (ScoreOk (cleaned (Some (js_str ''Bob Smith!''))) b, db') \<and>
      select_user db' (cleaned (Some (js_str ''Bob Smith!''))) = Some e \<and> best e = b)"
proof -
  have c: "cleaned (Some (js_str ''Bob Smith!'')) \<noteq> []"
    by code_simp
  from c
    score_post_rejects_bad_score [OF c, of "Finite (- 1)" example_store
      "''2026-01-04T10:00:00.000Z''"]
    score_post_rejects_bad_score [OF c, of NaN example_store "''2026-01-04T10:00:00.000Z''"]
    score_post_rejects_bad_score [OF c, of "Finite (7 / 2)" example_store
      "''2026-01-04T10:00:00.000Z''"]
  show ?thesis
    by simp
qed

section \<open>Rank query\<close>

text \<open>
  C2. The rank query answers with the rank the specification words, one more than the
  number of rows with a greater \<open>best\<close> or with the same \<open>best\<close> and an earlier
  \<open>updated_at\<close>, when the username has a row; its total is the number of all rows, the
  same count whether the username has a row or not.
\<close>

theorem rank_get_matches_spec:
  "rank_get db q =
     (case select_user db (safeUsername q) of
        None \<Rightarrow> RankOk (safeUsername q) None (spec_total db) None
      | Some mine \<Rightarrow>
          RankOk (safeUsername q) (Some (spec_rank db mine)) (spec_total db) (Some (best mine)))"
  by (simp add: rank_get_found rank_get_missing spec_rank_def spec_total_def
      count_where_filter count_ahead_def split: option.split)

theorem rank_get_matches_spec_witness:
  "rank_get example_store (Some (js_str '' Alice'')) =
     RankOk (js_str ''alice'') (Some 2) 3 (Some 10)"
proof -
  have s: "select_user example_store (safeUsername (Some (js_str '' Alice''))) = Some alice_row"
    by code_simp
  have r: "spec_rank example_store alice_row = 2"
    by code_simp
  have t: "spec_total example_store = 3"
    by code_simp
  have u: "safeUsername (Some (js_str '' Alice'')) = js_str ''alice''"
    by code_simp
  have b: "best alice_row = 10"
    by code_simp
  show ?thesis
    using rank_get_matches_spec [of example_store "Some (js_str '' Alice'')"]
    unfolding s by (simp add: r t u b)
qed

text \<open>
  C4. Of two rows with the same \<open>best\<close>, the one with the earlier \<open>updated_at\<close>
  gets the strictly smaller rank from the rank query.
\<close>

theorem tie_broken_by_earlier_update:
  assumes "select_user db (safeUsername qa) = Some a"
    and "select_user db (safeUsername qb) = Some b"
    and "best a = best b"
    and "updated_at a < updated_at b"
  shows "\<exists>ra rb. rank_get db qa = RankOk (safeUsername qa) (Some ra) (length db) (Some (best a)) \<and>
                 rank_get db qb = RankOk (safeUsername qb) (Some rb) (length db) (Some (best b)) \<and>
                 ra < rb"
proof -
  from assms(1) have "a \<in> set db" by (simp add: select_user_mem)
  then have "count_ahead db (best b) (updated_at a) < count_ahead db (best b) (updated_at b)"
    using assms(3,4) by (rule count_ahead_tie)
  then show ?thesis
    using assms by (simp add: rank_get_found)
qed

theorem tie_broken_by_earlier_update_witness:
  "\<exists>ra rb.
     rank_get example_store (Some (js_str '' Alice'')) =
       RankOk (js_str ''alice'') (Some ra) 3 (Some 10) \<and>
     rank_get example_store (Some (js_str ''carol'')) =
       RankOk (js_str ''carol'') (Some rb) 3 (Some 10) \<and>
     ra < rb"
proof -
  have a: "select_user example_store (safeUsername (Some (js_str '' Alice''))) = Some alice_row"
    by code_simp
  have c: "select_user example_store (safeUsername (Some (js_str ''carol''))) = Some carol_row"
    by code_simp
  have e: "best alice_row = best carol_row"
    by code_simp
  have l: "updated_at alice_row < updated_at carol_row"
    by code_simp
  have u: "safeUsername (Some (js_str '' Alice'')) = js_str ''alice''"
    "safeUsername (Some (js_str ''carol'')) = js_str ''carol''"
    by code_simp+
  have b: "best alice_row = 10" "best carol_row = 10" "length example_store = 3"
    by code_simp+
  show ?thesis
    using tie_broken_by_earlier_update [OF a c e l] by (simp add: u b)
qed

text \<open>
  C5. For a username that has a row, the rank is at least 1 and at most the total; and
  it is 1 when every other row has a strictly smaller \<open>best\<close>.
\<close>

theorem rank_in_range_and_top:
  assumes "select_user db (safeUsername q) = Some me"
  shows "\<exists>r. rank_get db q = RankOk (safeUsername q) (Some r) (length db) (Some (best me)) \<and>
             1 \<le> r \<and> r \<le> length db \<and>
             ((\<forall>x\<in>set db. x \<noteq> me \<longrightarrow> best x < best me) \<longrightarrow> r = 1)"
proof -
  let ?r = "count_ahead db (best me) (updated_at me) + 1"
  from assms have "me \<in> set db" by (simp add: select_user_mem)
  then have "count_ahead db (best me) (updated_at me) < length db"
    by (rule count_ahead_self_less)
  then have "1 \<le> ?r" and "?r \<le> length db" by simp_all
  moreover have "rank_get db q = RankOk (safeUsername q) (Some ?r) (length db) (Some (best me))"
    using assms by (rule rank_get_found)
  moreover have "(\<forall>x\<in>set db. x \<noteq> me \<longrightarrow> best x < best me) \<longrightarrow> ?r = 1"
    by (simp add: count_ahead_top)
  ultimately show ?thesis by blast
qed

theorem rank_in_range_and_top_witness:
  "rank_get example_store (Some (js_str ''bob'')) = RankOk (js_str ''bob'') (Some 1) 3 (Some 15)"
proof -
  have s: "select_user example_store (safeUsername (Some (js_str ''bob''))) = Some bob_row"
    by code_simp
  have top: "\<forall>x\<in>set example_store. x \<noteq> bob_row \<longrightarrow> best x < best bob_row"
    by (simp add: example_store_def alice_row_def bob_row_def carol_row_def)
  have u: "safeUsername (Some (js_str ''bob'')) = js_str ''bob''"
    by code_simp
  have b: "best bob_row = 15" "length example_store = 3"
    by code_simp+
  from rank_in_range_and_top [OF s] top show ?thesis
    by (auto simp: u b)
qed

text \<open>
  C6. For a username without a row the rank query does not fail: it answers rank null and
  best null, with the number of all rows as total.
\<close>

theorem rank_of_unknown_user:
  assumes "select_user db (safeUsername q) = None"
  shows "rank_get db q = RankOk (safeUsername q) None (length db) None"
  using assms by (rule rank_get_missing)

theorem rank_of_unknown_user_witness:
  "rank_get example_store (Some (js_str ''Dave'')) = RankOk (js_str ''dave'') None 3 None"
proof -
  have s: "select_user example_store (safeUsername (Some (js_str ''Dave''))) = None"
    by code_simp
  have u: "safeUsername (Some (js_str ''Dave'')) = js_str ''dave''"
    by code_simp
  have n: "length example_store = 3"
    by code_simp
  from rank_of_unknown_user [OF s] show ?thesis
    by (simp add: u n)
qed

section \<open>Listing and rank\<close>

text \<open>
  C9. When no two rows agree on both \<open>best\<close> and \<open>updated_at\<close>, the row at position
  \<open>i\<close> of the listing, counted from 0, has rank \<open>i + 1\<close> in the rank query for its
  username, for every limit the listing is asked with.
\<close>

theorem leaderboard_position_is_rank:
  assumes "distinct (map (\<lambda>e. (best e, updated_at e)) db)"
    and "leaderboard_get db limitRaw = LeaderboardOk rows"
    and "i < length rows"
    and "select_user db (safeUsername q) = Some (rows ! i)"
  shows "rank_get db q =
           RankOk (safeUsername q) (Some (i + 1)) (length db) (Some (best (rows ! i)))"
proof -
  from assms(2) obtain n where rows: "rows = take n (ordered_rows db)"
    by (auto simp: leaderboard_get_def Let_def split: if_splits)
  with assms(3) have i: "i < length (ordered_rows db)" and nth: "rows ! i = ordered_rows db ! i"
    by simp_all
  have "count_ahead db (best (rows ! i)) (updated_at (rows ! i)) = i"
    using ordered_rows_position [OF assms(1) i] nth by simp
  then show ?thesis
    using rank_get_found [OF assms(4)] by simp
qed

theorem leaderboard_position_is_rank_witness:
  "leaderboard_get example_store (Finite 10) = LeaderboardOk [bob_row, alice_row, carol_row] \<and>
   rank_get example_store (Some (js_str ''carol'')) =
     RankOk (js_str ''carol'') (Some 3) 3 (Some 10)"
proof -
  have d: "distinct (map (\<lambda>e. (best e, updated_at e)) example_store)"
    by (simp add: example_store_def alice_row_def bob_row_def carol_row_def)
  have l: "leaderboard_get example_store (Finite 10) =
             LeaderboardOk [bob_row, alice_row, carol_row]"
    by code_simp
  have i: "2 < length [bob_row, alice_row, carol_row]"
    by simp
  have s: "select_user example_store (safeUsername (Some (js_str ''carol''))) =
             Some ([bob_row, alice_row, carol_row] ! 2)"
    by code_simp
  have u: "safeUsername (Some (js_str ''carol'')) = js_str ''carol''"
    by code_simp
  have b: "best carol_row = 10" "length example_store = 3"
    by code_simp+
  from leaderboard_position_is_rank [OF d l i s] l show ?thesis
    by (simp add: u b)
qed

section \<open>Normal form of usernames\<close>

text \<open>
  C10. \<^verbatim>\<open>safeUsername\<close> never returns the empty string; its result has only units of
  \<^verbatim>\<open>[a-z0-9_-]\<close>; it is \<^verbatim>\<open>player\<close> when cleaning leaves nothing; and applied to
  its own result it returns that result. Hence every username in a table built by score
  submissions from the empty table, and the name part of every avatar file name, is its
  own normal form.
\<close>

theorem safeUsername_normal_form:
  "safeUsername x \<noteq> [] \<and>
   set (safeUsername x) \<subseteq> set (js_str ''abcdefghijklmnopqrstuvwxyz0123456789_-'') \<and>
   (cleaned x = [] \<longrightarrow> safeUsername x = js_str ''player'') \<and>
   safeUsername (Some (safeUsername x)) = safeUsername x \<and>
   list_all (\<lambda>e. safeUsername (Some (username e)) = username e) (run_posts [] reqs) \<and>
   (\<exists>k. avatar_filename x = k @ js_str ''.png'' \<and> safeUsername (Some k) = k)"
proof -
  have 1: "safeUsername x \<noteq> []" by (rule safeUsername_nonempty)
  have 2: "set (safeUsername x) \<subseteq> set (js_str ''abcdefghijklmnopqrstuvwxyz0123456789_-'')"
    using safeUsername_allowed [of x] allowed_enum by (auto simp: list_all_iff)
  have 3: "cleaned x = [] \<longrightarrow> safeUsername x = js_str ''player''"
    by (simp add: safeUsername_def)
  have 4: "safeUsername (Some (safeUsername x)) = safeUsername x" by (rule safeUsername_idem)
  have "store_ok (run_posts [] reqs)"
    using store_ok_empty by (rule store_ok_run_posts)
  then have 5: "list_all (\<lambda>e. safeUsername (Some (username e)) = username e) (run_posts [] reqs)"
    by (simp add: store_ok_def normalized_def)
  have 6: "\<exists>k. avatar_filename x = k @ js_str ''.png'' \<and> safeUsername (Some k) = k"
    using 4 by (auto simp: avatar_filename_def)
  from 1 2 3 4 5 6 show ?thesis by blast
qed

theorem safeUsername_normal_form_witness:
  "cleaned (Some (js_str '' !! '')) = [] \<and>
   safeUsername (Some (js_str '' !! '')) = js_str ''player'' \<and>
   safeUsername (Some (js_str ''player'')) = js_str ''player'' \<and>
   list_all (\<lambda>e. safeUsername (Some (username e)) = username e)
     (run_posts []
        [(''2026-01-04T10:00:00.000Z'', Some (js_str ''Bob Smith!''), Finite 3),
         (''2026-01-05T10:00:00.000Z'', None, Finite 2)]) \<and>
   run_posts []
     [(''2026-01-04T10:00:00.000Z'', Some (js_str ''Bob Smith!''), Finite 3),
      (''2026-01-05T10:00:00.000Z'', None, Finite 2)] =
     [\<lparr>username = js_str ''bob-smith'', best = 3, updated_at = ''2026-01-04T10:00:00.000Z''\<rparr>,
      \<lparr>username = js_str ''player'', best = 2, updated_at = ''2026-01-05T10:00:00.000Z''\<rparr>]"
proof -
  have c: "cleaned (Some (js_str '' !! '')) = []"
    by code_simp
  have r: "run_posts []
     [(''2026-01-04T10:00:00.000Z'', Some (js_str ''Bob Smith!''), Finite 3),
      (''2026-01-05T10:00:00.000Z'', None, Finite 2)] =
     [\<lparr>username = js_str ''bob-smith'', best = 3, updated_at = ''2026-01-04T10:00:00.000Z''\<rparr>,
      \<lparr>username = js_str ''player'', best = 2, updated_at = ''2026-01-05T10:00:00.000Z''\<rparr>]"
    by code_simp
  from c r
    safeUsername_normal_form [of "Some (js_str '' !! '')"
      "[(''2026-01-04T10:00:00.000Z'', Some (js_str ''Bob Smith!''), Finite 3),
        (''2026-01-05T10:00:00.000Z'', None, Finite 2)]"]
  show ?thesis
    by simp
qed

section \<open>Avatar upload\<close>

text \<open>
  C8. A file part that is not an image should be answered with status 400 and leave no
  file. \<^verbatim>\<open>fileFilter\<close> refuses \<^verbatim>\<open>text/plain\<close>, but the avatar middleware is
  built without it: the two bytes sent as \<^verbatim>\<open>text/plain\<close> for bob are stored as
  \<^verbatim>\<open>bob.png\<close> and the answer is the avatar's address.
\<close>

theorem upload_avatar_accepts_text_plain:
  "\<not> fileFilter ''text/plain'' \<and>
   upload_avatar Map.empty (Some (js_str ''bob''))
     (Some \<lparr>mimetype = ''text/plain'', content = [0x68, 0x69]\<rparr>) =
     (AvatarOk (js_str ''/avatars/bob.png''),
      [js_str ''bob.png'' \<mapsto> \<lparr>mimetype = ''text/plain'', content = [0x68, 0x69]\<rparr>])"
proof -
  have f: "\<not> fileFilter ''text/plain''"
    by (simp add: fileFilter_def)
  have u: "safeUsername (Some (js_str ''bob'')) = js_str ''bob''"
    by code_simp
  have n: "js_str ''/avatars/'' @ js_str ''bob'' @ js_str ''.png'' = js_str ''/avatars/bob.png''"
    "js_str ''bob'' @ js_str ''.png'' = js_str ''bob.png''"
    "js_str ''/avatars/'' @ js_str ''bob.png'' = js_str ''/avatars/bob.png''"
    by (simp_all add: js_str_def)
  show ?thesis
    using f by (simp add: upload_avatar_def avatar_filename_def fileSize_limit_def u n)
qed

theorem upload_avatar_accepts_text_plain_witness:
  "snd (upload_avatar Map.empty (Some (js_str ''bob''))
          (Some \<lparr>mimetype = ''text/plain'', content = [0x68, 0x69]\<rparr>))
     (js_str ''bob.png'') =
   Some \<lparr>mimetype = ''text/plain'', content = [0x68, 0x69]\<rparr>"
  using upload_avatar_accepts_text_plain by simp

end
